theory Spec2Isabelle
  imports Complex_Main
begin

section \<open>JavaScript numbers\<close>

text \<open>
  A JavaScript \<^verbatim>\<open>number\<close> is an IEEE-754 double. The model keeps the special values that the
  arithmetic of the program can produce (the two infinities and NaN) and idealises the finite
  values as real numbers: rounding, overflow and underflow of finite results are not modelled,
  and zero carries no sign (a zero divisor is read as \<^verbatim>\<open>+0\<close>).
\<close>

datatype number = Fin real | PInf | NInf | NaN

instantiation number :: "{zero, one, plus, uminus, minus, times, inverse, abs, ord}"
begin

definition zero_number :: number where
  "zero_number = Fin 0"

definition one_number :: number where
  "one_number = Fin 1"

fun plus_number :: "number \<Rightarrow> number \<Rightarrow> number" where
  "plus_number NaN _ = NaN"
| "plus_number _ NaN = NaN"
| "plus_number (Fin a) (Fin b) = Fin (a + b)"
| "plus_number PInf NInf = NaN"
| "plus_number NInf PInf = NaN"
| "plus_number PInf _ = PInf"
| "plus_number _ PInf = PInf"
| "plus_number NInf _ = NInf"
| "plus_number _ NInf = NInf"

fun uminus_number :: "number \<Rightarrow> number" where
  "uminus_number (Fin a) = Fin (- a)"
| "uminus_number PInf = NInf"
| "uminus_number NInf = PInf"
| "uminus_number NaN = NaN"

definition minus_number :: "number \<Rightarrow> number \<Rightarrow> number" where
  "minus_number x y = x + (- y)"

text \<open>The sign of a product or quotient with an infinite operand.\<close>

definition signed_inf :: "bool \<Rightarrow> number" where
  "signed_inf positive = (if positive then PInf else NInf)"

fun times_number :: "number \<Rightarrow> number \<Rightarrow> number" where
  "times_number NaN _ = NaN"
| "times_number _ NaN = NaN"
| "times_number (Fin a) (Fin b) = Fin (a * b)"
| "times_number (Fin a) PInf = (if a = 0 then NaN else signed_inf (0 < a))"
| "times_number (Fin a) NInf = (if a = 0 then NaN else signed_inf (a < 0))"
| "times_number PInf (Fin b) = (if b = 0 then NaN else signed_inf (0 < b))"
| "times_number NInf (Fin b) = (if b = 0 then NaN else signed_inf (b < 0))"
| "times_number PInf PInf = PInf"
| "times_number NInf NInf = PInf"
| "times_number PInf NInf = NInf"
| "times_number NInf PInf = NInf"

fun divide_number :: "number \<Rightarrow> number \<Rightarrow> number" where
  "divide_number NaN _ = NaN"
| "divide_number _ NaN = NaN"
| "divide_number (Fin a) (Fin b) =
     (if b \<noteq> 0 then Fin (a / b) else if a = 0 then NaN else signed_inf (0 < a))"
| "divide_number (Fin a) PInf = Fin 0"
| "divide_number (Fin a) NInf = Fin 0"
| "divide_number PInf (Fin b) = signed_inf (0 \<le> b)"
| "divide_number NInf (Fin b) = signed_inf (b < 0)"
| "divide_number PInf PInf = NaN"
| "divide_number PInf NInf = NaN"
| "divide_number NInf PInf = NaN"
| "divide_number NInf NInf = NaN"

fun inverse_number :: "number \<Rightarrow> number" where
  "inverse_number (Fin b) = (if b \<noteq> 0 then Fin (1 / b) else PInf)"
| "inverse_number PInf = Fin 0"
| "inverse_number NInf = Fin 0"
| "inverse_number NaN = NaN"

fun abs_number :: "number \<Rightarrow> number" where
  "abs_number (Fin a) = Fin \<bar>a\<bar>"
| "abs_number PInf = PInf"
| "abs_number NInf = PInf"
| "abs_number NaN = NaN"

text \<open>Comparisons are false as soon as one side is NaN.\<close>

fun less_number :: "number \<Rightarrow> number \<Rightarrow> bool" where
  "less_number NaN _ = False"
| "less_number _ NaN = False"
| "less_number (Fin a) (Fin b) = (a < b)"
| "less_number _ NInf = False"
| "less_number PInf _ = False"
| "less_number NInf _ = True"
| "less_number _ PInf = True"

fun less_eq_number :: "number \<Rightarrow> number \<Rightarrow> bool" where
  "less_eq_number NaN _ = False"
| "less_eq_number _ NaN = False"
| "less_eq_number (Fin a) (Fin b) = (a \<le> b)"
| "less_eq_number NInf _ = True"
| "less_eq_number _ PInf = True"
| "less_eq_number _ NInf = False"
| "less_eq_number PInf _ = False"

instance ..

end

text \<open>The functions of the \<^verbatim>\<open>Math\<close> object that the engines call.\<close>

fun Math_exp :: "number \<Rightarrow> number" where
  "Math_exp (Fin a) = Fin (exp a)"
| "Math_exp PInf = PInf"
| "Math_exp NInf = Fin 0"
| "Math_exp NaN = NaN"

text \<open>
  \<open>Math_exp\<close> above is the real exponential: on a finite argument it is never \<open>0\<close> and
  never infinite. A double cannot hold every such value. \<open>Math_exp_double\<close> keeps the range
  of doubles: a result at or below \<open>1 / 2 ^ 1075\<close>, half the least positive double, is \<open>0\<close>,
  and a result at or above \<open>2 ^ 1024 - 2 ^ 970\<close>, the rounding boundary above the greatest
  double, is Infinity. In between it is still the real exponential.
\<close>

fun Math_exp_double :: "number \<Rightarrow> number" where
  "Math_exp_double (Fin a) =
    (if a \<le> - 1075 * ln 2 then Fin 0
     else if ln (2 ^ 1024 - 2 ^ 970) \<le> a then PInf
     else Fin (exp a))"
| "Math_exp_double PInf = PInf"
| "Math_exp_double NInf = Fin 0"
| "Math_exp_double NaN = NaN"

fun Math_log :: "number \<Rightarrow> number" where
  "Math_log (Fin a) = (if 0 < a then Fin (ln a) else if a = 0 then NInf else NaN)"
| "Math_log PInf = PInf"
| "Math_log NInf = NaN"
| "Math_log NaN = NaN"

fun Math_sqrt :: "number \<Rightarrow> number" where
  "Math_sqrt (Fin a) = (if 0 \<le> a then Fin (sqrt a) else NaN)"
| "Math_sqrt PInf = PInf"
| "Math_sqrt NInf = NaN"
| "Math_sqrt NaN = NaN"

fun Math_cos :: "number \<Rightarrow> number" where
  "Math_cos (Fin a) = Fin (cos a)"
| "Math_cos _ = NaN"

fun Math_floor :: "number \<Rightarrow> number" where
  "Math_floor (Fin a) = Fin (of_int \<lfloor>a\<rfloor>)"
| "Math_floor x = x"

fun Math_max :: "number \<Rightarrow> number \<Rightarrow> number" where
  "Math_max NaN _ = NaN"
| "Math_max _ NaN = NaN"
| "Math_max x y = (if x < y then y else x)"

definition Math_PI :: number where
  "Math_PI = Fin pi"

section \<open>Math engines\<close>

subsection \<open>Normal distribution\<close>

definition normalCDF :: "number \<Rightarrow> number" where
  "normalCDF x =
    (let t = Fin 1 / (Fin 1 + Fin 0.2316419 * \<bar>x\<bar>);
         d = Fin 0.3989423 * Math_exp (- x * x / Fin 2);
         prob = d * t * (Fin 0.3193815 + t * (Fin (-0.3565638) + t * (Fin 1.781478
                  + t * (Fin (-1.821256) + t * Fin 1.330274))))
     in if Fin 0 < x then Fin 1 - prob else prob)"

definition normalPDF :: "number \<Rightarrow> number" where
  "normalPDF x = Math_exp (Fin (-0.5) * x * x) / Math_sqrt (Fin 2 * Math_PI)"

subsection \<open>Black-Scholes pricer\<close>

record BlackScholesResult =
  callPrice :: number
  putPrice :: number
  delta :: number
  gamma :: number
  theta :: number
  vega :: number
  rho :: number

definition calculateBlackScholes ::
  "number \<Rightarrow> number \<Rightarrow> number \<Rightarrow> number \<Rightarrow> number \<Rightarrow> BlackScholesResult" where
  "calculateBlackScholes S K T r sigma =
    (let d1 = (Math_log (S / K) + (r + Fin 0.5 * sigma * sigma) * T) / (sigma * Math_sqrt T);
         d2 = d1 - sigma * Math_sqrt T;
         Nd1 = normalCDF d1;
         Nd2 = normalCDF d2;
         Nmd1 = normalCDF (- d1);
         Nmd2 = normalCDF (- d2);
         nd1 = normalPDF d1;
         callPrice = S * Nd1 - K * Math_exp (- r * T) * Nd2;
         putPrice = K * Math_exp (- r * T) * Nmd2 - S * Nmd1;
         delta = Nd1;
         gamma = nd1 / (S * sigma * Math_sqrt T);
         theta = - (S * nd1 * sigma) / (Fin 2 * Math_sqrt T) - r * K * Math_exp (- r * T) * Nd2;
         vega = S * nd1 * Math_sqrt T;
         rho = K * T * Math_exp (- r * T) * Nd2
     in \<lparr> callPrice = callPrice, putPrice = putPrice, delta = delta, gamma = gamma,
          theta = theta / Fin 365, vega = vega / Fin 100, rho = rho / Fin 100 \<rparr>)"

subsection \<open>Gaussian sampler\<close>

text \<open>
  \<^verbatim>\<open>Math.random()\<close> is the only effect of the engines. It is modelled as a source
  \<open>random :: nat \<Rightarrow> real\<close>, the sequence of the values that successive calls return, and a
  position \<open>pos\<close> in it that every call advances. The two \<^verbatim>\<open>while\<close> loops of
  \<^verbatim>\<open>generateGaussianRandom\<close> start from \<^verbatim>\<open>0\<close>, so each draws at least once and goes on
  drawing while the draw is \<^verbatim>\<open>0\<close>; on a source that is \<^verbatim>\<open>0\<close> from some position on they
  never return, which is the value \<open>None\<close>.
\<close>

partial_function (option) randomNonZero :: "(nat \<Rightarrow> real) \<Rightarrow> nat \<Rightarrow> (real \<times> nat) option" where
  "randomNonZero random pos =
    (if random pos = 0 then randomNonZero random (Suc pos) else Some (random pos, Suc pos))"

definition generateGaussianRandom :: "(nat \<Rightarrow> real) \<Rightarrow> nat \<Rightarrow> (number \<times> nat) option" where
  "generateGaussianRandom random pos =
    (case randomNonZero random pos of
       None \<Rightarrow> None
     | Some (u1, pos1) \<Rightarrow>
        (case randomNonZero random pos1 of
           None \<Rightarrow> None
         | Some (u2, pos2) \<Rightarrow>
             Some (Math_sqrt (Fin (-2.0) * Math_log (Fin u1))
                     * Math_cos (Fin 2.0 * Math_PI * Fin u2), pos2)))"

subsection \<open>Arrays\<close>

text \<open>
  An array of numbers is a list of \<open>number option\<close>: \<open>None\<close> is a slot that was never
  assigned (\<^verbatim>\<open>new Array(n)\<close> creates \<open>n\<close> of them). Reading such a slot, or reading
  outside the array, gives \<^verbatim>\<open>undefined\<close>, which arithmetic converts to NaN. Writing at or
  beyond the length extends the array. A length is a natural number here;
  \<^verbatim>\<open>new Array(n)\<close> raises a RangeError when \<open>n\<close> is not an integer from \<open>0\<close> to
  \<open>2 ^ 32 - 1\<close>, which is not modelled.
\<close>

definition new_Array :: "nat \<Rightarrow> 'a option list" where
  "new_Array n = replicate n None"

definition array_get :: "'a option list \<Rightarrow> nat \<Rightarrow> 'a option" where
  "array_get xs i = (if i < length xs then xs ! i else None)"

definition array_set :: "'a option list \<Rightarrow> nat \<Rightarrow> 'a \<Rightarrow> 'a option list" where
  "array_set xs i v =
    (if i < length xs then xs[i := Some v]
     else xs @ replicate (i - length xs) None @ [Some v])"

text \<open>Reading at an index that is itself a number: only a non-negative integer is an index.\<close>

fun array_at :: "'a option list \<Rightarrow> number \<Rightarrow> 'a option" where
  "array_at xs (Fin x) =
    (if 0 \<le> x \<and> of_int \<lfloor>x\<rfloor> = x then array_get xs (nat \<lfloor>x\<rfloor>) else None)"
| "array_at xs _ = None"

fun toNumber :: "number option \<Rightarrow> number" where
  "toNumber None = NaN"
| "toNumber (Some x) = x"

text \<open>
  \<^verbatim>\<open>payoffs.sort((a, b) => a - b)\<close>: a stable sort by the comparator, which moves \<open>a\<close>
  behind \<open>b\<close> when \<open>a - b\<close> is positive. It is written as an insertion sort; on numbers
  whose differences are never NaN every stable sort returns the same array.
\<close>

fun insert_by_difference :: "number \<Rightarrow> number list \<Rightarrow> number list" where
  "insert_by_difference a [] = [a]"
| "insert_by_difference a (b # bs) =
    (if Fin 0 < a - b then b # insert_by_difference a bs else a # b # bs)"

definition sort_by_difference :: "number list \<Rightarrow> number list" where
  "sort_by_difference xs = foldr insert_by_difference xs []"

subsection \<open>GBM path simulator\<close>

text \<open>The \<^verbatim>\<open>for\<close> loop of \<^verbatim>\<open>simulateGBMPath\<close>, from its counter \<open>i\<close>.\<close>

function simulateGBMPath_loop ::
  "number \<Rightarrow> number \<Rightarrow> number \<Rightarrow> nat \<Rightarrow> (nat \<Rightarrow> real) \<Rightarrow> nat \<Rightarrow> number option list \<Rightarrow> nat
    \<Rightarrow> (number option list \<times> nat) option" where
  "simulateGBMPath_loop r sigma dt steps random i path pos =
    (if i \<le> steps then
       (case generateGaussianRandom random pos of
          None \<Rightarrow> None
        | Some (Z, pos') \<Rightarrow>
            (let drift = (r - Fin 0.5 * sigma * sigma) * dt;
                 diffusion = sigma * Math_sqrt dt * Z
             in simulateGBMPath_loop r sigma dt steps random (Suc i)
                  (array_set path i (toNumber (array_get path (i - 1)) * Math_exp (drift + diffusion)))
                  pos'))
     else Some (path, pos))"
  by pat_completeness auto
termination
  by (relation "measure (\<lambda>(r, sigma, dt, steps, random, i, path, pos). Suc steps - i)") auto

declare simulateGBMPath_loop.simps [simp del]

definition simulateGBMPath ::
  "number \<Rightarrow> number \<Rightarrow> number \<Rightarrow> number \<Rightarrow> nat \<Rightarrow> (nat \<Rightarrow> real) \<Rightarrow> nat
    \<Rightarrow> (number option list \<times> nat) option" where
  "simulateGBMPath S0 r sigma T steps random pos =
    (let dt = T / Fin (real steps);
         path = array_set (new_Array (steps + 1)) 0 S0
     in simulateGBMPath_loop r sigma dt steps random 1 path pos)"

text \<open>
  The same function with \<^verbatim>\<open>Math.exp\<close> in the range of doubles.
\<close>

function simulateGBMPath_loop_double ::
  "number \<Rightarrow> number \<Rightarrow> number \<Rightarrow> nat \<Rightarrow> (nat \<Rightarrow> real) \<Rightarrow> nat \<Rightarrow> number option list \<Rightarrow> nat
    \<Rightarrow> (number option list \<times> nat) option" where
  "simulateGBMPath_loop_double r sigma dt steps random i path pos =
    (if i \<le> steps then
       (case generateGaussianRandom random pos of
          None \<Rightarrow> None
        | Some (Z, pos') \<Rightarrow>
            (let drift = (r - Fin 0.5 * sigma * sigma) * dt;
                 diffusion = sigma * Math_sqrt dt * Z
             in simulateGBMPath_loop_double r sigma dt steps random (Suc i)
                  (array_set path i
                     (toNumber (array_get path (i - 1)) * Math_exp_double (drift + diffusion)))
                  pos'))
     else Some (path, pos))"
  by pat_completeness auto
termination
  by (relation "measure (\<lambda>(r, sigma, dt, steps, random, i, path, pos). Suc steps - i)") auto

declare simulateGBMPath_loop_double.simps [simp del]

definition simulateGBMPath_double ::
  "number \<Rightarrow> number \<Rightarrow> number \<Rightarrow> number \<Rightarrow> nat \<Rightarrow> (nat \<Rightarrow> real) \<Rightarrow> nat
    \<Rightarrow> (number option list \<times> nat) option" where
  "simulateGBMPath_double S0 r sigma T steps random pos =
    (let dt = T / Fin (real steps);
         path = array_set (new_Array (steps + 1)) 0 S0
     in simulateGBMPath_loop_double r sigma dt steps random 1 path pos)"

subsection \<open>Monte Carlo option engine\<close>

datatype optionType = Call | Put

text \<open>The variables that the simulation loop of \<^verbatim>\<open>runMonteCarloSimulation\<close> updates.\<close>

record simulation =
  allPaths :: "number option list list"
  payoffs :: "number list"
  sumPayoff :: number
  inTheMoneyCount :: nat

record mcResults =
  optionPrice :: number
  inTheMoneyProbability :: number
  valueAtRisk :: number
  visualPaths :: "number option list option list"

function runMonteCarloSimulation_loop ::
  "number \<Rightarrow> number \<Rightarrow> number \<Rightarrow> number \<Rightarrow> number \<Rightarrow> nat \<Rightarrow> nat \<Rightarrow> optionType
    \<Rightarrow> (nat \<Rightarrow> real) \<Rightarrow> nat \<Rightarrow> simulation \<Rightarrow> nat \<Rightarrow> (simulation \<times> nat) option" where
  "runMonteCarloSimulation_loop S0 K T r sigma iterations steps optType random i sim pos =
    (if i < iterations then
       (case simulateGBMPath S0 r sigma T steps random pos of
          None \<Rightarrow> None
        | Some (path, pos') \<Rightarrow>
            (let ST = toNumber (array_get path (length path - 1));
                 payoff = (if optType = Call then Math_max (ST - K) (Fin 0)
                           else Math_max (K - ST) (Fin 0));
                 count = (if Fin 0 < payoff then inTheMoneyCount sim + 1
                          else inTheMoneyCount sim);
                 discounted = payoff * Math_exp (- r * T)
             in runMonteCarloSimulation_loop S0 K T r sigma iterations steps optType random (Suc i)
                  \<lparr> allPaths = allPaths sim @ [path],
                    payoffs = payoffs sim @ [discounted],
                    sumPayoff = sumPayoff sim + discounted,
                    inTheMoneyCount = count \<rparr>
                  pos'))
     else Some (sim, pos))"
  by pat_completeness auto
termination
  by (relation "measure (\<lambda>(S0, K, T, r, sigma, iterations, steps, optType, random, i, sim, pos).
        iterations - i)") auto

declare runMonteCarloSimulation_loop.simps [simp del]

text \<open>
  The loop that picks the paths to draw, with its stride
  \<^verbatim>\<open>step = Math.max(1, Math.floor(iterations / 20))\<close> on the natural number \<open>iterations\<close>.
\<close>

function visualPaths_loop ::
  "number option list list \<Rightarrow> nat \<Rightarrow> nat \<Rightarrow> number option list option list
    \<Rightarrow> number option list option list" where
  "visualPaths_loop paths iterations i visual =
    (if i < iterations then
       visualPaths_loop paths iterations (i + max 1 (iterations div 20))
         (if length visual < 20 then visual @ [array_get (map Some paths) i] else visual)
     else visual)"
  by pat_completeness auto
termination
  by (relation "measure (\<lambda>(paths, iterations, i, visual). iterations - i)") auto

declare visualPaths_loop.simps [simp del]

text \<open>
  \<^verbatim>\<open>runMonteCarloSimulation\<close> reads its parameters from \<^verbatim>\<open>mcParams\<close> and stores its result
  with \<^verbatim>\<open>setMcResults\<close>; here the parameters are arguments and the result is returned.
\<close>

definition runMonteCarloSimulation ::
  "number \<Rightarrow> number \<Rightarrow> number \<Rightarrow> number \<Rightarrow> number \<Rightarrow> nat \<Rightarrow> nat \<Rightarrow> optionType
    \<Rightarrow> (nat \<Rightarrow> real) \<Rightarrow> nat \<Rightarrow> (mcResults \<times> nat) option" where
  "runMonteCarloSimulation S0 K T r sigma iterations steps optType random pos =
    (case runMonteCarloSimulation_loop S0 K T r sigma iterations steps optType random 0
            \<lparr> allPaths = [], payoffs = [], sumPayoff = Fin 0, inTheMoneyCount = 0 \<rparr> pos of
       None \<Rightarrow> None
     | Some (sim, pos') \<Rightarrow>
         (let price = sumPayoff sim / Fin (real iterations);
              sorted = sort_by_difference (payoffs sim);
              index5th = Math_floor (Fin (real iterations) * Fin 0.05);
              var = price - toNumber (array_at (map Some sorted) index5th)
          in Some (\<lparr> optionPrice = price,
                     inTheMoneyProbability =
                       (Fin (real (inTheMoneyCount sim)) / Fin (real iterations)) * Fin 100,
                     valueAtRisk = var,
                     visualPaths = visualPaths_loop (allPaths sim) iterations 0 [] \<rparr>, pos')))"

section \<open>Portfolio rebalancer\<close>

record Asset =
  asset_id :: string
  name :: string
  currentValue :: number
  targetAllocation :: number

datatype action = BUY | SELL | HOLD

record RebalanceAction = Asset +
  targetValue :: number
  delta :: number
  action :: action

record calculations_result =
  totalValue :: number
  totalAllocation :: number
  isValid :: bool
  actions :: "RebalanceAction list"
  currentData :: "(string \<times> number) list"
  targetData :: "(string \<times> number) list"

text \<open>\<^verbatim>\<open>x || 0\<close> on a number: \<^verbatim>\<open>0\<close> and NaN are falsy.\<close>

definition or_zero :: "number \<Rightarrow> number" where
  "or_zero x = (if x = Fin 0 \<or> x = NaN then Fin 0 else x)"

text \<open>\<^verbatim>\<open>a.name || 'Unnamed'\<close>: the empty string is falsy.\<close>

definition or_Unnamed :: "string \<Rightarrow> string" where
  "or_Unnamed s = (if s = [] then ''Unnamed'' else s)"

definition calculations :: "Asset list \<Rightarrow> calculations_result" where
  "calculations assets =
    (let total = foldl (\<lambda>sum a. sum + or_zero (currentValue a)) (Fin 0) assets;
         allocation = foldl (\<lambda>sum a. sum + or_zero (targetAllocation a)) (Fin 0) assets;
         valid = (\<bar>allocation - Fin 100\<bar> < Fin 0.01);
         acts = map (\<lambda>asset.
                  let target = (total * or_zero (targetAllocation asset)) / Fin 100;
                      d = target - or_zero (currentValue asset)
                  in Asset.extend asset
                       \<lparr> targetValue = target, delta = d,
                         action = (if Fin 0.01 < d then BUY
                                   else if d < Fin (-0.01) then SELL else HOLD) \<rparr>) assets;
         current = map (\<lambda>a. (or_Unnamed (name a), currentValue a))
                     (filter (\<lambda>a. Fin 0 < currentValue a) assets);
         target = map (\<lambda>a. (or_Unnamed (name a), (total * targetAllocation a) / Fin 100))
                     (filter (\<lambda>a. Fin 0 < targetAllocation a \<and> Fin 0 < total) assets)
     in \<lparr> totalValue = total, totalAllocation = allocation, isValid = valid, actions = acts,
          currentData = current, targetData = target \<rparr>)"

section \<open>The specification's formulas over the reals\<close>

text \<open>The real value of a finite number.\<close>

fun real_of :: "number \<Rightarrow> real" where
  "real_of (Fin x) = x"
| "real_of _ = 0"

subsection \<open>Normal distribution functions\<close>

text \<open>
  The approximation of the upper tail: scale \<open>0.3989423\<close>, rate constant \<open>0.2316419\<close> and the
  five coefficients of the polynomial in \<open>t\<close>, evaluated at \<open>\<bar>x\<bar>\<close>.
\<close>

definition cdf_tail :: "real \<Rightarrow> real" where
  "cdf_tail x =
    (let t = 1 / (1 + 0.2316419 * \<bar>x\<bar>)
     in 0.3989423 * exp (- (x\<^sup>2) / 2)
        * (0.3193815 * t - 0.3565638 * t^2 + 1.781478 * t^3 - 1.821256 * t^4 + 1.330274 * t^5))"

definition cdf :: "real \<Rightarrow> real" where
  "cdf x = (if 0 < x then 1 - cdf_tail x else cdf_tail x)"

definition pdf :: "real \<Rightarrow> real" where
  "pdf x = exp (- (x\<^sup>2) / 2) / sqrt (2 * pi)"

subsection \<open>Black-Scholes\<close>

definition d1_spec :: "real \<Rightarrow> real \<Rightarrow> real \<Rightarrow> real \<Rightarrow> real \<Rightarrow> real" where
  "d1_spec S K T r \<sigma> = (ln (S / K) + (r + 0.5 * \<sigma>\<^sup>2) * T) / (\<sigma> * sqrt T)"

definition d2_spec :: "real \<Rightarrow> real \<Rightarrow> real \<Rightarrow> real \<Rightarrow> real \<Rightarrow> real" where
  "d2_spec S K T r \<sigma> = d1_spec S K T r \<sigma> - \<sigma> * sqrt T"

subsection \<open>The source of randomness\<close>

text \<open>
  What \<^verbatim>\<open>Math.random()\<close> promises: every value lies in \<open>[0, 1)\<close>. A source that is
  \<^verbatim>\<open>0\<close> for ever from some position on has probability zero and is excluded.
\<close>

definition uniform_source :: "(nat \<Rightarrow> real) \<Rightarrow> bool" where
  "uniform_source random \<longleftrightarrow>
     (\<forall>n. 0 \<le> random n \<and> random n < 1) \<and> (\<forall>n. \<exists>m\<ge>n. random m \<noteq> 0)"

definition constant_source :: "real \<Rightarrow> nat \<Rightarrow> real" where
  "constant_source u n = u"

subsection \<open>Paths and payoffs\<close>

definition positive_slot :: "number option \<Rightarrow> bool" where
  "positive_slot s \<longleftrightarrow> (\<exists>x. 0 < x \<and> s = Some (Fin x))"



text \<open>The undiscounted payoff at the terminal value \<open>ST\<close>, and the payoff discounted by \<open>exp (- r * T)\<close>.\<close>

definition payoff :: "optionType \<Rightarrow> real \<Rightarrow> real \<Rightarrow> real" where
  "payoff ty K ST = (case ty of Call \<Rightarrow> max (ST - K) 0 | Put \<Rightarrow> max (K - ST) 0)"

definition discounted_payoff :: "optionType \<Rightarrow> real \<Rightarrow> real \<Rightarrow> real \<Rightarrow> real \<Rightarrow> real" where
  "discounted_payoff ty K r T ST = payoff ty K ST * exp (- r * T)"

text \<open>
  The invariant of the simulation loop: \<open>sts\<close> are the terminal values of the paths simulated so
  far, in order, and the four variables of the loop are what the specification says of them.
\<close>

definition tallies :: "optionType \<Rightarrow> real \<Rightarrow> real \<Rightarrow> real \<Rightarrow> simulation \<Rightarrow> real list \<Rightarrow> bool" where
  "tallies ty K r T sim sts \<longleftrightarrow>
     map (\<lambda>path. toNumber (array_get path (length path - 1))) (allPaths sim) = map Fin sts
   \<and> payoffs sim = map (\<lambda>ST. Fin (discounted_payoff ty K r T ST)) sts
   \<and> sumPayoff sim = Fin (sum_list (map (discounted_payoff ty K r T) sts))
   \<and> inTheMoneyCount sim = length (filter (\<lambda>ST. 0 < payoff ty K ST) sts)"

subsection \<open>Portfolio rebalancer\<close>

definition finite_asset :: "Asset \<Rightarrow> bool" where
  "finite_asset a \<longleftrightarrow> (\<exists>c t. currentValue a = Fin c \<and> targetAllocation a = Fin t)"

text \<open>The sum of the deltas of the rebalance actions.\<close>

definition sum_deltas :: "RebalanceAction list \<Rightarrow> number" where
  "sum_deltas acts = foldl (\<lambda>sum a. sum + delta a) (Fin 0) acts"

section \<open>Finite arguments\<close>

lemma minus_Fin [simp]: "Fin a - Fin b = Fin (a - b)"
  by (simp add: minus_number_def)

subsection \<open>Normal distribution functions\<close>

lemma rate_denominator: "1 + 0.2316419 * \<bar>x::real\<bar> \<noteq> 0"
proof -
  have "0 \<le> 0.2316419 * \<bar>x\<bar>" by simp
  then show ?thesis by linarith
qed

lemma horner_form:
  "d * t * (b1 + t * (b2 + t * (b3 + t * (b4 + t * b5))))
   = d * (b1 * t + b2 * t^2 + b3 * t^3 + b4 * t^4 + b5 * t^5)" for d t :: real
  by (simp add: eval_nat_numeral algebra_simps)

lemma normalCDF_prob:
  "Fin 0.3989423 * Math_exp (- Fin x * Fin x / Fin 2) * (Fin 1 / (Fin 1 + Fin 0.2316419 * \<bar>Fin x\<bar>))
     * (Fin 0.3193815 + (Fin 1 / (Fin 1 + Fin 0.2316419 * \<bar>Fin x\<bar>)) * (Fin (-0.3565638)
        + (Fin 1 / (Fin 1 + Fin 0.2316419 * \<bar>Fin x\<bar>)) * (Fin 1.781478
        + (Fin 1 / (Fin 1 + Fin 0.2316419 * \<bar>Fin x\<bar>)) * (Fin (-1.821256)
        + (Fin 1 / (Fin 1 + Fin 0.2316419 * \<bar>Fin x\<bar>)) * Fin 1.330274))))
   = Fin (cdf_tail x)"
proof -
  define t where "t = 1 / (1 + 0.2316419 * \<bar>x\<bar>)"
  have t: "Fin 1 / (Fin 1 + Fin 0.2316419 * \<bar>Fin x\<bar>) = Fin t"
    using rate_denominator [of x] by (simp add: t_def)
  have e: "Math_exp (- Fin x * Fin x / Fin 2) = Fin (exp (- (x\<^sup>2) / 2))"
    by (simp add: power2_eq_square)
  have "cdf_tail x = 0.3989423 * exp (- (x\<^sup>2) / 2) * t
     * (0.3193815 + t * (-0.3565638 + t * (1.781478 + t * (-1.821256 + t * 1.330274))))"
    unfolding cdf_tail_def Let_def t_def [symmetric] horner_form by simp
  then show ?thesis
    unfolding t e by simp
qed

lemma normalCDF_Fin: "normalCDF (Fin x) = Fin (cdf x)"
  unfolding normalCDF_def Let_def normalCDF_prob by (simp add: cdf_def)

lemma cdf_tail_even: "cdf_tail (- x) = cdf_tail x"
  by (simp add: cdf_tail_def)

lemma cdf_reflect: "x \<noteq> 0 \<Longrightarrow> cdf x + cdf (- x) = 1"
  by (simp add: cdf_def cdf_tail_even)

lemma cdf_zero: "cdf 0 = 49999985009951 / 100000000000000"
  by (simp add: cdf_def cdf_tail_def)

lemma cdf_reflect_gap: "cdf x + cdf (- x) - 1 = (if x = 0 then - (29980098 / 10 ^ 14) else 0)"
  using cdf_reflect [of x] by (simp add: cdf_zero)

lemma normalPDF_Fin: "normalPDF (Fin x) = Fin (pdf x)"
  by (simp add: normalPDF_def pdf_def Math_PI_def power2_eq_square)

text \<open>
  C7. For every real \<open>x\<close>, \<open>normalCDF\<close> computes the fixed polynomial approximation with the
  coefficients 0.3193815, -0.3565638, 1.781478, -1.821256, 1.330274, the scale 0.3989423 and
  the rate constant 0.2316419, evaluated at \<open>\<bar>x\<bar>\<close> (this is \<open>cdf_tail\<close>), and returns
  \<open>1 - prob\<close> when \<open>x > 0\<close> and \<open>prob\<close> otherwise.
\<close>

theorem normalCDF_approximation:
  "normalCDF (Fin x) = Fin (if 0 < x then 1 - cdf_tail x else cdf_tail x)"
  using normalCDF_Fin [of x] by (simp add: cdf_def)

text \<open>
  C10. For every real \<open>x \<noteq> 0\<close>, \<open>normalCDF x + normalCDF (- x) = 1\<close> exactly in real
  arithmetic; at \<open>x = 0\<close> both calls take the branch that is not complemented and the sum is
  not \<open>1\<close>.
\<close>

theorem normalCDF_reflection:
  "(x \<noteq> 0 \<longrightarrow> normalCDF (Fin x) + normalCDF (- Fin x) = Fin 1)
   \<and> normalCDF (Fin 0) + normalCDF (- Fin 0) \<noteq> Fin 1"
  using cdf_reflect [of x] by (simp add: normalCDF_Fin cdf_zero)

theorem normalCDF_reflection_witness:
  "normalCDF (Fin 2) + normalCDF (- Fin 2) = Fin 1"
  using normalCDF_reflection [of 2] by simp

subsection \<open>Black-Scholes pricer\<close>

lemma calculateBlackScholes_Fin:
  assumes "0 < S" "0 < K" "0 < T" "0 < \<sigma>"
  shows "calculateBlackScholes (Fin S) (Fin K) (Fin T) (Fin r) (Fin \<sigma>) =
    (let d1 = d1_spec S K T r \<sigma>; d2 = d2_spec S K T r \<sigma>
     in \<lparr> callPrice = Fin (S * cdf d1 - K * exp (- r * T) * cdf d2),
          putPrice = Fin (K * exp (- r * T) * cdf (- d2) - S * cdf (- d1)),
          delta = Fin (cdf d1),
          gamma = Fin (pdf d1 / (S * \<sigma> * sqrt T)),
          theta = Fin ((- (S * pdf d1 * \<sigma>) / (2 * sqrt T) - r * K * exp (- r * T) * cdf d2) / 365),
          vega = Fin (S * pdf d1 * sqrt T / 100),
          rho = Fin (K * T * exp (- r * T) * cdf d2 / 100) \<rparr>)"
proof -
  have sq: "Math_sqrt (Fin T) = Fin (sqrt T)"
    using assms by simp
  have d1: "(Math_log (Fin S / Fin K) + (Fin r + Fin 0.5 * Fin \<sigma> * Fin \<sigma>) * Fin T)
              / (Fin \<sigma> * Fin (sqrt T)) = Fin (d1_spec S K T r \<sigma>)"
    using assms by (simp add: d1_spec_def power2_eq_square)
  show ?thesis
    unfolding calculateBlackScholes_def Let_def sq d1
    using assms by (simp add: normalCDF_Fin normalPDF_Fin d2_spec_def)
qed

lemma d1_spec_example: "d1_spec 100 100 1 0 2 = 1"
  by (simp add: d1_spec_def)

lemma d2_spec_example: "d2_spec 100 100 1 0 2 = - 1"
  by (simp add: d2_spec_def d1_spec_example)

text \<open>
  C5. For every valid input (\<open>S, K, T, \<sigma> > 0\<close>) the pricer returns the closed-form values of
  the specification, with \<open>N = cdf\<close> and \<open>\<phi> = pdf\<close>: theta per calendar day (divided by 365),
  vega and rho per percentage point (divided by 100).
\<close>

theorem calculateBlackScholes_closed_form:
  assumes "0 < S" "0 < K" "0 < T" "0 < \<sigma>"
  shows "calculateBlackScholes (Fin S) (Fin K) (Fin T) (Fin r) (Fin \<sigma>) =
    (let d1 = (ln (S / K) + (r + 0.5 * \<sigma>\<^sup>2) * T) / (\<sigma> * sqrt T);
         d2 = d1 - \<sigma> * sqrt T
     in \<lparr> callPrice = Fin (S * cdf d1 - K * exp (- r * T) * cdf d2),
          putPrice = Fin (K * exp (- r * T) * cdf (- d2) - S * cdf (- d1)),
          delta = Fin (cdf d1),
          gamma = Fin (pdf d1 / (S * \<sigma> * sqrt T)),
          theta = Fin ((- (S * pdf d1 * \<sigma>) / (2 * sqrt T) - r * K * exp (- r * T) * cdf d2) / 365),
          vega = Fin (S * pdf d1 * sqrt T / 100),
          rho = Fin (K * T * exp (- r * T) * cdf d2 / 100) \<rparr>)"
  unfolding calculateBlackScholes_Fin [OF assms] d2_spec_def d1_spec_def by (simp add: Let_def)

theorem calculateBlackScholes_closed_form_witness:
  "calculateBlackScholes (Fin 100) (Fin 100) (Fin 1) (Fin 0) (Fin 2) =
     \<lparr> callPrice = Fin (100 * cdf 1 - 100 * cdf (- 1)),
       putPrice = Fin (100 * cdf 1 - 100 * cdf (- 1)),
       delta = Fin (cdf 1),
       gamma = Fin (pdf 1 / 200),
       theta = Fin (- (200 * pdf 1 / 2) / 365),
       vega = Fin (pdf 1),
       rho = Fin (cdf (- 1)) \<rparr>"
  using calculateBlackScholes_closed_form [of 100 100 1 2 0] by (simp add: Let_def)

lemma parity_deviation:
  assumes "0 < S" "0 < K" "0 < T" "0 < \<sigma>"
  shows "callPrice (calculateBlackScholes (Fin S) (Fin K) (Fin T) (Fin r) (Fin \<sigma>))
          - putPrice (calculateBlackScholes (Fin S) (Fin K) (Fin T) (Fin r) (Fin \<sigma>))
         = Fin (S - K * exp (- r * T)
                + S * (cdf (d1_spec S K T r \<sigma>) + cdf (- d1_spec S K T r \<sigma>) - 1)
                - K * exp (- r * T) * (cdf (d2_spec S K T r \<sigma>) + cdf (- d2_spec S K T r \<sigma>) - 1))"
  unfolding calculateBlackScholes_Fin [OF assms] Let_def
  by (simp add: algebra_simps)

text \<open>
  C1, as amended. For every valid input the difference \<open>callPrice - putPrice\<close> equals
  \<open>S - K * exp (- r * T)\<close> exactly when neither \<open>d1\<close> nor \<open>d2\<close> is \<open>0\<close>, and in every case
  deviates from it by at most \<open>3 / 10 ^ 7 * max S (K * exp (- r * T))\<close>.
\<close>

theorem put_call_parity:
  assumes "0 < S" "0 < K" "0 < T" "0 < \<sigma>"
  shows "(d1_spec S K T r \<sigma> \<noteq> 0 \<and> d2_spec S K T r \<sigma> \<noteq> 0 \<longrightarrow>
            callPrice (calculateBlackScholes (Fin S) (Fin K) (Fin T) (Fin r) (Fin \<sigma>))
              - putPrice (calculateBlackScholes (Fin S) (Fin K) (Fin T) (Fin r) (Fin \<sigma>))
            = Fin (S - K * exp (- r * T)))
       \<and> \<bar>callPrice (calculateBlackScholes (Fin S) (Fin K) (Fin T) (Fin r) (Fin \<sigma>))
              - putPrice (calculateBlackScholes (Fin S) (Fin K) (Fin T) (Fin r) (Fin \<sigma>))
              - Fin (S - K * exp (- r * T))\<bar>
          \<le> Fin (3 / 10 ^ 7 * max S (K * exp (- r * T)))"
proof -
  define d1 where "d1 = d1_spec S K T r \<sigma>"
  define d2 where "d2 = d2_spec S K T r \<sigma>"
  define e where "e = K * exp (- r * T)"
  have e: "0 < e" using assms by (simp add: e_def)
  have "0 < \<sigma> * sqrt T" using assms by simp
  then have d12: "d1 \<noteq> 0 \<or> d2 \<noteq> 0"
    unfolding d1_def d2_def d2_spec_def by linarith
  have dev: "callPrice (calculateBlackScholes (Fin S) (Fin K) (Fin T) (Fin r) (Fin \<sigma>))
          - putPrice (calculateBlackScholes (Fin S) (Fin K) (Fin T) (Fin r) (Fin \<sigma>))
         = Fin (S - e + S * (cdf d1 + cdf (- d1) - 1) - e * (cdf d2 + cdf (- d2) - 1))"
    unfolding d1_def d2_def e_def by (rule parity_deviation [OF assms])
  have exact: "d1 \<noteq> 0 \<and> d2 \<noteq> 0 \<longrightarrow>
      S - e + S * (cdf d1 + cdf (- d1) - 1) - e * (cdf d2 + cdf (- d2) - 1) = S - e"
    by (simp add: cdf_reflect_gap cdf_zero)
  have bound: "\<bar>S - e + S * (cdf d1 + cdf (- d1) - 1) - e * (cdf d2 + cdf (- d2) - 1) - (S - e)\<bar>
      \<le> 3 / 10 ^ 7 * max S e"
  proof (cases "d1 = 0")
    case True
    with d12 have "d2 \<noteq> 0" by simp
    with True have "S - e + S * (cdf d1 + cdf (- d1) - 1) - e * (cdf d2 + cdf (- d2) - 1) - (S - e)
        = - (S * (29980098 / 10 ^ 14))"
      by (simp add: cdf_reflect_gap cdf_zero)
    moreover have "S * (29980098 / 10 ^ 14) \<le> 3 / 10 ^ 7 * max S e"
      using assms(1) e by (simp add: max_def)
    ultimately show ?thesis using assms(1) by simp
  next
    case False
    show ?thesis
    proof (cases "d2 = 0")
      case True
      with False have "S - e + S * (cdf d1 + cdf (- d1) - 1) - e * (cdf d2 + cdf (- d2) - 1) - (S - e)
          = e * (29980098 / 10 ^ 14)"
        by (simp add: cdf_reflect_gap cdf_zero)
      moreover have "e * (29980098 / 10 ^ 14) \<le> 3 / 10 ^ 7 * max S e"
        using assms(1) e by (simp add: max_def)
      ultimately show ?thesis using e by simp
    next
      case d2: False
      with False show ?thesis using assms(1) e by (simp add: cdf_reflect_gap cdf_zero max_def)
    qed
  qed
  show ?thesis
    unfolding dev d1_def [symmetric] d2_def [symmetric] e_def [symmetric]
    using exact bound by simp
qed

theorem put_call_parity_witness:
  "callPrice (calculateBlackScholes (Fin 100) (Fin 100) (Fin 1) (Fin 0) (Fin 2))
     - putPrice (calculateBlackScholes (Fin 100) (Fin 100) (Fin 1) (Fin 0) (Fin 2))
   = Fin (100 - 100 * exp (- 0 * 1))"
proof -
  have d1: "d1_spec 100 100 1 0 2 = 1" by (simp add: d1_spec_def)
  have d2: "d2_spec 100 100 1 0 2 = - 1" by (simp add: d2_spec_def d1)
  show ?thesis
    using put_call_parity [of 100 100 1 2 0] by (simp add: d1 d2)
qed

text \<open>
  At \<open>S = K = 100\<close>, \<open>T = 1\<close>, \<open>r = 0.125\<close>, \<open>\<sigma> = 0.5\<close> the second argument \<open>d2\<close> is
  \<open>0\<close>, both \<open>N(d2)\<close> and \<open>N(-d2)\<close> are the value at \<open>0\<close>, and parity is off by more than
  \<open>1 / 10 ^ 6\<close>.
\<close>

theorem put_call_parity_counterexample:
  "Fin (1 / 10 ^ 6) <
    \<bar>callPrice (calculateBlackScholes (Fin 100) (Fin 100) (Fin 1) (Fin 0.125) (Fin 0.5))
       - putPrice (calculateBlackScholes (Fin 100) (Fin 100) (Fin 1) (Fin 0.125) (Fin 0.5))
       - (Fin 100 - Fin 100 * Math_exp (- Fin 0.125 * Fin 1))\<bar>"
proof -
  have d1: "d1_spec 100 100 1 (1 / 8) (1 / 2) = 1 / 2" by (simp add: d1_spec_def power2_eq_square)
  have d2: "d2_spec 100 100 1 (1 / 8) (1 / 2) = 0" by (simp add: d2_spec_def d1)
  have "1 + (- (1 / 8)) \<le> exp (- (1 / 8) :: real)" by (rule exp_ge_add_one_self)
  then have e: "7 / 8 \<le> exp (- (1 / 8) :: real)" by simp
  have dev: "callPrice (calculateBlackScholes (Fin 100) (Fin 100) (Fin 1) (Fin 0.125) (Fin 0.5))
          - putPrice (calculateBlackScholes (Fin 100) (Fin 100) (Fin 1) (Fin 0.125) (Fin 0.5))
         = Fin (100 - 100 * exp (- (1 / 8)) + 100 * exp (- (1 / 8)) * (29980098 / 10 ^ 14))"
    using parity_deviation [of 100 100 1 "1 / 2" "1 / 8"]
    by (simp add: d1 d2 cdf_reflect_gap cdf_zero)
  show ?thesis
    unfolding dev using e by simp
qed

subsection \<open>Gaussian sampler\<close>

lemma uniform_constant_source: "0 < u \<Longrightarrow> u < 1 \<Longrightarrow> uniform_source (constant_source u)"
  by (auto simp: uniform_source_def constant_source_def)

lemma randomNonZero_finds:
  "random m \<noteq> 0 \<Longrightarrow> pos \<le> m \<Longrightarrow>
     \<exists>k. random k \<noteq> 0 \<and> randomNonZero random pos = Some (random k, Suc k)"
proof (induction "m - pos" arbitrary: pos)
  case 0
  then have "pos = m" by simp
  with 0 show ?case by (subst randomNonZero.simps) auto
next
  case (Suc n)
  show ?case
  proof (cases "random pos = 0")
    case True
    from Suc have "n = m - Suc pos" "Suc pos \<le> m" by simp_all
    from Suc.hyps(1) [OF this(1) Suc.prems(1) this(2)]
    obtain k where "random k \<noteq> 0" "randomNonZero random (Suc pos) = Some (random k, Suc k)"
      by blast
    with True show ?thesis by (subst randomNonZero.simps) auto
  next
    case False
    then show ?thesis by (subst randomNonZero.simps) auto
  qed
qed

lemma randomNonZero_uniform:
  assumes "uniform_source random"
  shows "\<exists>u pos'. randomNonZero random pos = Some (u, pos') \<and> 0 < u \<and> u < 1"
proof -
  from assms obtain m where "pos \<le> m" "random m \<noteq> 0"
    unfolding uniform_source_def by blast
  from randomNonZero_finds [of random m pos, OF this(2) this(1)]
  obtain k where k: "random k \<noteq> 0" "randomNonZero random pos = Some (random k, Suc k)"
    by blast
  from assms have "0 \<le> random k" "random k < 1"
    unfolding uniform_source_def by simp_all
  with k show ?thesis by auto
qed

lemma generateGaussianRandom_uniform:
  assumes "uniform_source random"
  shows "\<exists>z pos'. generateGaussianRandom random pos = Some (Fin z, pos')"
proof -
  from randomNonZero_uniform [OF assms, of pos]
  obtain u1 pos1 where u1: "randomNonZero random pos = Some (u1, pos1)" "0 < u1" "u1 < 1"
    by blast
  from randomNonZero_uniform [OF assms, of pos1]
  obtain u2 pos2 where u2: "randomNonZero random pos1 = Some (u2, pos2)"
    by blast
  from u1 have "ln u1 < 0" by simp
  then have "0 \<le> - 2 * ln u1" by simp
  with u1 u2 show ?thesis
    by (simp add: generateGaussianRandom_def Math_PI_def)
qed

lemma randomNonZero_constant_source:
  "u \<noteq> 0 \<Longrightarrow> randomNonZero (constant_source u) pos = Some (u, Suc pos)"
  by (subst randomNonZero.simps) (simp add: constant_source_def)

lemma generateGaussianRandom_half:
  "generateGaussianRandom (constant_source (1 / 2)) pos
     = Some (Fin (- sqrt (2 * ln 2)), Suc (Suc pos))"
proof -
  have "ln (1 / 2 :: real) = - ln 2" by (simp add: ln_div)
  then have l: "- 2 * ln (1 / 2 :: real) = 2 * ln 2" by simp
  have c: "cos (2 * pi * (1 / 2)) = - 1" by simp
  have "0 \<le> 2 * ln (2::real)" by simp
  then show ?thesis
    unfolding generateGaussianRandom_def
    by (simp add: randomNonZero_constant_source Math_PI_def ln_div)
qed

subsection \<open>GBM path simulator\<close>

lemma simulateGBMPath_loop_positive:
  assumes "uniform_source random" "0 \<le> dt"
  shows "1 \<le> i \<Longrightarrow> i \<le> Suc steps \<Longrightarrow> length path = Suc steps \<Longrightarrow>
     (\<forall>j<i. positive_slot (path ! j)) \<Longrightarrow>
     \<exists>path' pos'. simulateGBMPath_loop (Fin r) (Fin \<sigma>) (Fin dt) steps random i path pos
                    = Some (path', pos')
       \<and> length path' = Suc steps \<and> (\<forall>j<Suc steps. positive_slot (path' ! j))
       \<and> path' ! 0 = path ! 0"
proof (induction "Suc steps - i" arbitrary: i path pos)
  case 0
  then have "i = Suc steps" by simp
  with 0 show ?case by (subst simulateGBMPath_loop.simps) simp
next
  case (Suc n)
  then have i: "i \<le> steps" "i - 1 < i" "i < length path" "i - 1 < length path" by simp_all
  from generateGaussianRandom_uniform [OF assms(1), of pos]
  obtain z pos1 where z: "generateGaussianRandom random pos = Some (Fin z, pos1)" by blast
  from Suc.prems(4) i(2) have "positive_slot (path ! (i - 1))" by blast
  then obtain x where x: "0 < x" "path ! (i - 1) = Some (Fin x)"
    unfolding positive_slot_def by blast
  define y where "y = x * exp ((r - 0.5 * \<sigma> * \<sigma>) * dt + \<sigma> * sqrt dt * z)"
  have y: "0 < y" using x(1) by (simp add: y_def)
  define path1 where "path1 = path[i := Some (Fin y)]"
  have step: "simulateGBMPath_loop (Fin r) (Fin \<sigma>) (Fin dt) steps random i path pos
      = simulateGBMPath_loop (Fin r) (Fin \<sigma>) (Fin dt) steps random (Suc i) path1 pos1"
    apply (subst simulateGBMPath_loop.simps)
    using i z x assms(2) by (simp add: Let_def array_get_def array_set_def path1_def y_def)
  have len: "length path1 = Suc steps" using Suc.prems(3) by (simp add: path1_def)
  have filled: "\<forall>j<Suc i. positive_slot (path1 ! j)"
  proof (intro allI impI)
    fix j assume "j < Suc i"
    show "positive_slot (path1 ! j)"
    proof (cases "j = i")
      case True
      with i(3) y show ?thesis by (simp add: path1_def positive_slot_def)
    next
      case False
      with \<open>j < Suc i\<close> have "j < i" by simp
      with Suc.prems(4) False show ?thesis by (simp add: path1_def)
    qed
  qed
  from Suc.hyps(2) i(1) have n: "n = Suc steps - Suc i" by simp
  have "1 \<le> Suc i" "Suc i \<le> Suc steps" using i(1) by simp_all
  from Suc.hyps(1) [OF n this len filled, of pos1]
  obtain path' pos' where
    "simulateGBMPath_loop (Fin r) (Fin \<sigma>) (Fin dt) steps random (Suc i) path1 pos1 = Some (path', pos')"
    "length path' = Suc steps" "\<forall>j<Suc steps. positive_slot (path' ! j)" "path' ! 0 = path1 ! 0"
    by blast
  moreover have "path1 ! 0 = path ! 0" using Suc.prems(1) by (simp add: path1_def)
  ultimately show ?case unfolding step by simp
qed

lemma simulateGBMPath_positive:
  assumes "uniform_source random" "0 < S0" "0 < T"
  shows "\<exists>path pos'.
      simulateGBMPath (Fin S0) (Fin r) (Fin \<sigma>) (Fin T) steps random pos = Some (path, pos')
    \<and> length path = steps + 1
    \<and> array_get path 0 = Some (Fin S0)
    \<and> (\<forall>slot \<in> set path. positive_slot slot)"
proof -
  define path0 where "path0 = array_set (new_Array (steps + 1)) 0 (Fin S0)"
  have path0: "length path0 = Suc steps" "path0 ! 0 = Some (Fin S0)"
    by (simp_all add: path0_def array_set_def new_Array_def)
  have first: "\<forall>j<1. positive_slot (path0 ! j)"
    using assms(2) path0(2) by (simp add: positive_slot_def)
  show ?thesis
  proof (cases "steps = 0")
    case True
    have "simulateGBMPath (Fin S0) (Fin r) (Fin \<sigma>) (Fin T) steps random pos = Some (path0, pos)"
      unfolding simulateGBMPath_def Let_def path0_def [symmetric]
      using True by (subst simulateGBMPath_loop.simps) simp
    moreover have "path0 = [Some (Fin S0)]"
      using True by (simp add: path0_def array_set_def new_Array_def)
    ultimately show ?thesis
      using assms(2) True by (simp add: array_get_def positive_slot_def)
  next
    case False
    define dt where "dt = T / real steps"
    have dt: "0 \<le> dt" "Fin T / Fin (real steps) = Fin dt"
      using False assms(3) by (simp_all add: dt_def)
    from simulateGBMPath_loop_positive [OF assms(1) dt(1) _ _ path0(1) first, of r \<sigma> pos]
    obtain path pos' where p:
      "simulateGBMPath_loop (Fin r) (Fin \<sigma>) (Fin dt) steps random 1 path0 pos = Some (path, pos')"
      "length path = Suc steps" "\<forall>j<Suc steps. positive_slot (path ! j)" "path ! 0 = path0 ! 0"
      by auto
    have "simulateGBMPath (Fin S0) (Fin r) (Fin \<sigma>) (Fin T) steps random pos = Some (path, pos')"
      unfolding simulateGBMPath_def Let_def path0_def [symmetric] dt(2) by (rule p(1))
    moreover have "\<forall>slot \<in> set path. positive_slot slot"
      using p(2,3) by (auto simp: in_set_conv_nth)
    ultimately show ?thesis
      using p(2,4) path0(2) by (auto simp: array_get_def)
  qed
qed

text \<open>
  C3, as amended. In exact real arithmetic (\<open>Math_exp\<close> is the real exponential), for every
  call with \<open>S0 > 0\<close>, \<open>T > 0\<close> and \<open>steps + 1\<close> a length that \<^verbatim>\<open>new Array\<close> accepts, and
  every source of uniform draws, \<open>simulateGBMPath\<close> returns; the path has exactly
  \<open>steps + 1\<close> values, its index \<open>0\<close> is \<open>S0\<close>, and every value of it is a strictly positive
  number.
\<close>

theorem simulateGBMPath_invariant:
  assumes "uniform_source random" "0 < S0" "0 < T" "steps + 1 < 2 ^ 32"
  shows "\<exists>path pos'.
      simulateGBMPath (Fin S0) (Fin r) (Fin \<sigma>) (Fin T) steps random pos = Some (path, pos')
    \<and> length path = steps + 1
    \<and> array_get path 0 = Some (Fin S0)
    \<and> (\<forall>slot \<in> set path. \<exists>x. 0 < x \<and> slot = Some (Fin x))"
  using simulateGBMPath_positive [OF assms(1-3), of r \<sigma> steps pos] unfolding positive_slot_def .

theorem simulateGBMPath_invariant_witness:
  "\<exists>path pos'.
      simulateGBMPath (Fin 100) (Fin 0.05) (Fin 0.2) (Fin 1) 2 (constant_source (1 / 2)) 0
        = Some (path, pos')
    \<and> length path = 3
    \<and> array_get path 0 = Some (Fin 100)
    \<and> (\<forall>slot \<in> set path. \<exists>x. 0 < x \<and> slot = Some (Fin x))"
proof -
  have u: "uniform_source (constant_source (1 / 2))"
    by (rule uniform_constant_source) simp_all
  show ?thesis
    using simulateGBMPath_invariant [OF u, of 100 1 2 "0.05" "0.2" 0] by simp
qed

text \<open>
  In the range of doubles positivity fails. At \<open>S0 = 100\<close>, \<open>r = 0.05\<close>, \<open>\<sigma> = 100\<close>, \<open>T = 1\<close>,
  \<open>steps = 1\<close> and uniform draws of \<open>1 / 2\<close> the Gaussian draw is \<open>- sqrt (2 * ln 2)\<close>, the
  exponent is below \<open>- 4999\<close>, \<^verbatim>\<open>Math.exp\<close> returns \<open>0\<close> and the path is \<open>[100, 0]\<close>.
\<close>

theorem simulateGBMPath_invariant_counterexample:
  "simulateGBMPath_double (Fin 100) (Fin 0.05) (Fin 100) (Fin 1) 1 (constant_source (1 / 2)) 0
     = Some ([Some (Fin 100), Some (Fin 0)], 2)"
proof -
  have "ln (2::real) \<le> 2 - 1" by (rule ln_le_minus_one) simp
  then have a: "1075 * ln (2::real) \<le> 1075" by simp
  have b: "0 \<le> 100 * sqrt (2 * ln (2::real))" by simp
  have "(0.05 - 0.5 * 100 * 100) * 1 + 100 * sqrt 1 * (- sqrt (2 * ln 2))
      = - (99999 / 20) - 100 * sqrt (2 * ln (2::real))"
    by simp
  with a b have under: "(0.05 - 0.5 * 100 * 100) * 1 + 100 * sqrt 1 * (- sqrt (2 * ln 2))
      \<le> - 1075 * ln (2::real)"
    by linarith
  show ?thesis
    unfolding simulateGBMPath_double_def Let_def
    apply (subst simulateGBMPath_loop_double.simps)
    using under
    apply (simp add: generateGaussianRandom_half Let_def array_set_def array_get_def new_Array_def)
    apply (subst simulateGBMPath_loop_double.simps)
    apply (simp add: numeral_2_eq_2)
    done
qed

subsection \<open>Monte Carlo option engine\<close>

lemma Math_max_payoff:
  "(if ty = Call then Math_max (Fin ST - Fin K) (Fin 0) else Math_max (Fin K - Fin ST) (Fin 0))
   = Fin (payoff ty K ST)"
  by (cases ty) (simp_all add: payoff_def max_def)

lemma simulateGBMPath_terminal:
  assumes "uniform_source random" "0 < S0" "0 < T"
  shows "\<exists>path pos' ST.
      simulateGBMPath (Fin S0) (Fin r) (Fin \<sigma>) (Fin T) steps random pos = Some (path, pos')
    \<and> toNumber (array_get path (length path - 1)) = Fin ST"
proof -
  from simulateGBMPath_positive [OF assms, of r \<sigma> steps pos]
  obtain path pos' where p:
    "simulateGBMPath (Fin S0) (Fin r) (Fin \<sigma>) (Fin T) steps random pos = Some (path, pos')"
    "length path = steps + 1" "\<forall>slot \<in> set path. positive_slot slot"
    by blast
  from p(2) have "path ! (length path - 1) \<in> set path" by simp
  with p(3) obtain x where "path ! (length path - 1) = Some (Fin x)"
    unfolding positive_slot_def by blast
  with p(1,2) show ?thesis by (simp add: array_get_def)
qed

lemma runMonteCarloSimulation_loop_tallies:
  assumes "uniform_source random" "0 < S0" "0 < T"
  shows "i \<le> iterations \<Longrightarrow> length sts = i \<Longrightarrow> tallies ty K r T sim sts \<Longrightarrow>
     \<exists>sim' pos' sts'.
        runMonteCarloSimulation_loop (Fin S0) (Fin K) (Fin T) (Fin r) (Fin \<sigma>) iterations steps ty
          random i sim pos = Some (sim', pos')
      \<and> length sts' = iterations \<and> tallies ty K r T sim' sts'"
proof (induction "iterations - i" arbitrary: i sts sim pos)
  case 0
  then have "i = iterations" by simp
  with 0 show ?case by (subst runMonteCarloSimulation_loop.simps) auto
next
  case (Suc n)
  then have i: "i < iterations" by simp
  from simulateGBMPath_terminal [OF assms, of r \<sigma> steps pos]
  obtain path pos1 ST where p:
    "simulateGBMPath (Fin S0) (Fin r) (Fin \<sigma>) (Fin T) steps random pos = Some (path, pos1)"
    "toNumber (array_get path (length path - 1)) = Fin ST"
    by blast
  define sim1 where "sim1 =
    \<lparr> allPaths = allPaths sim @ [path],
      payoffs = payoffs sim @ [Fin (discounted_payoff ty K r T ST)],
      sumPayoff = sumPayoff sim + Fin (discounted_payoff ty K r T ST),
      inTheMoneyCount = (if 0 < payoff ty K ST then inTheMoneyCount sim + 1
                         else inTheMoneyCount sim) \<rparr>"
  have step: "runMonteCarloSimulation_loop (Fin S0) (Fin K) (Fin T) (Fin r) (Fin \<sigma>) iterations steps ty
          random i sim pos
      = runMonteCarloSimulation_loop (Fin S0) (Fin K) (Fin T) (Fin r) (Fin \<sigma>) iterations steps ty
          random (Suc i) sim1 pos1"
    apply (subst runMonteCarloSimulation_loop.simps)
    unfolding Let_def p(1) option.case prod.case p(2) Math_max_payoff
    using i by (simp add: sim1_def discounted_payoff_def)
  have tal: "tallies ty K r T sim1 (sts @ [ST])"
    using Suc.prems(3) p(2) by (simp add: tallies_def sim1_def)
  from Suc.hyps(2) i have n: "n = iterations - Suc i" by simp
  have "Suc i \<le> iterations" "length (sts @ [ST]) = Suc i" using i Suc.prems(2) by simp_all
  from Suc.hyps(1) [OF n this tal, of pos1]
  show ?case unfolding step .
qed

lemma insert_by_difference_Fin:
  "insert_by_difference (Fin a) (map Fin bs) = map Fin (insort a bs)"
  by (induction bs) auto

lemma sort_by_difference_Fin: "sort_by_difference (map Fin xs) = map Fin (sort xs)"
  unfolding sort_by_difference_def sort_key_def
  by (induction xs) (simp_all add: insert_by_difference_Fin)

lemma index5th_less: "1 \<le> n \<Longrightarrow> nat \<lfloor>0.05 * real n\<rfloor> < n"
proof -
  assume "1 \<le> n"
  then have "0.05 * real n < real n" by simp
  moreover have "real_of_int \<lfloor>0.05 * real n\<rfloor> \<le> 0.05 * real n" by (rule of_int_floor_le)
  ultimately have "real_of_int \<lfloor>0.05 * real n\<rfloor> < real n" by linarith
  then have "\<lfloor>0.05 * real n\<rfloor> < int n" by linarith
  then show ?thesis by (simp add: nat_less_iff)
qed

lemma array_at_index5th:
  assumes "1 \<le> n" "length xs = n"
  shows "array_at (map Some xs) (Math_floor (Fin (real n) * Fin 0.05))
         = Some (xs ! nat \<lfloor>0.05 * real n\<rfloor>)"
proof -
  have "0 \<le> \<lfloor>0.05 * real n\<rfloor>" by simp
  moreover have "real n * 0.05 = 0.05 * real n" by simp
  ultimately show ?thesis
    using index5th_less [OF assms(1)] assms(2)
    by (simp add: array_get_def mult.commute)
qed

lemma runMonteCarloSimulation_tallies:
  assumes "uniform_source random" "0 < S0" "0 < T" "1 \<le> iterations"
  shows "\<exists>sim pos' sts.
      runMonteCarloSimulation_loop (Fin S0) (Fin K) (Fin T) (Fin r) (Fin \<sigma>) iterations steps ty
          random 0 \<lparr> allPaths = [], payoffs = [], sumPayoff = Fin 0, inTheMoneyCount = 0 \<rparr> pos
        = Some (sim, pos')
    \<and> length sts = iterations \<and> tallies ty K r T sim sts
    \<and> runMonteCarloSimulation (Fin S0) (Fin K) (Fin T) (Fin r) (Fin \<sigma>) iterations steps ty random pos
        = Some (\<lparr> optionPrice =
                    Fin (sum_list (map (discounted_payoff ty K r T) sts) / real iterations),
                  inTheMoneyProbability =
                    Fin (100 * real (length (filter (\<lambda>ST. 0 < payoff ty K ST) sts))
                           / real iterations),
                  valueAtRisk =
                    Fin (sum_list (map (discounted_payoff ty K r T) sts) / real iterations
                         - sort (map (discounted_payoff ty K r T) sts)
                             ! nat \<lfloor>0.05 * real iterations\<rfloor>),
                  visualPaths = visualPaths_loop (allPaths sim) iterations 0 [] \<rparr>, pos')"
proof -
  have "tallies ty K r T \<lparr> allPaths = [], payoffs = [], sumPayoff = Fin 0, inTheMoneyCount = 0 \<rparr> []"
    by (simp add: tallies_def)
  from runMonteCarloSimulation_loop_tallies [OF assms(1-3) _ _ this, of 0 iterations \<sigma> steps pos]
  obtain sim pos' sts where l:
    "runMonteCarloSimulation_loop (Fin S0) (Fin K) (Fin T) (Fin r) (Fin \<sigma>) iterations steps ty
          random 0 \<lparr> allPaths = [], payoffs = [], sumPayoff = Fin 0, inTheMoneyCount = 0 \<rparr> pos
        = Some (sim, pos')"
    "length sts = iterations" "tallies ty K r T sim sts"
    by auto
  from l(3) have pay: "payoffs sim = map Fin (map (discounted_payoff ty K r T) sts)"
    and sum: "sumPayoff sim = Fin (sum_list (map (discounted_payoff ty K r T) sts))"
    and cnt: "inTheMoneyCount sim = length (filter (\<lambda>ST. 0 < payoff ty K ST) sts)"
    by (simp_all add: tallies_def)
  have len: "length (map Fin (sort (map (discounted_payoff ty K r T) sts))) = iterations"
    using l(2) by simp
  have n: "real iterations \<noteq> 0" using assms(4) by simp
  have "runMonteCarloSimulation (Fin S0) (Fin K) (Fin T) (Fin r) (Fin \<sigma>) iterations steps ty random pos
        = Some (\<lparr> optionPrice =
                    Fin (sum_list (map (discounted_payoff ty K r T) sts) / real iterations),
                  inTheMoneyProbability =
                    Fin (100 * real (length (filter (\<lambda>ST. 0 < payoff ty K ST) sts))
                           / real iterations),
                  valueAtRisk =
                    Fin (sum_list (map (discounted_payoff ty K r T) sts) / real iterations
                         - sort (map (discounted_payoff ty K r T) sts)
                             ! nat \<lfloor>0.05 * real iterations\<rfloor>),
                  visualPaths = visualPaths_loop (allPaths sim) iterations 0 [] \<rparr>, pos')"
    unfolding runMonteCarloSimulation_def l(1) option.case prod.case Let_def pay sum cnt
      sort_by_difference_Fin array_at_index5th [OF assms(4) len]
    using n index5th_less [OF assms(4)] l(2) by simp
  with l show ?thesis by blast
qed






text \<open>
  C2. For every run with at least one path (\<open>S0 > 0\<close>, \<open>T > 0\<close>), \<open>valueAtRisk\<close> is
  \<open>optionPrice\<close> minus the element at index \<open>\<lfloor>0.05 * iterations\<rfloor>\<close> of the discounted payoffs
  sorted in ascending order.
\<close>

theorem value_at_risk_definition:
  assumes "uniform_source random" "0 < S0" "0 < T" "1 \<le> iterations"
  shows "\<exists>sim pos' sts res.
      runMonteCarloSimulation_loop (Fin S0) (Fin K) (Fin T) (Fin r) (Fin \<sigma>) iterations steps ty
          random 0 \<lparr> allPaths = [], payoffs = [], sumPayoff = Fin 0, inTheMoneyCount = 0 \<rparr> pos
        = Some (sim, pos')
    \<and> runMonteCarloSimulation (Fin S0) (Fin K) (Fin T) (Fin r) (Fin \<sigma>) iterations steps ty random pos
        = Some (res, pos')
    \<and> length sts = iterations
    \<and> payoffs sim = map (\<lambda>ST. Fin (discounted_payoff ty K r T ST)) sts
    \<and> optionPrice res = Fin (sum_list (map (discounted_payoff ty K r T) sts) / real iterations)
    \<and> nat \<lfloor>0.05 * real iterations\<rfloor> < length sts
    \<and> valueAtRisk res
        = optionPrice res
          - Fin (sort (map (discounted_payoff ty K r T) sts) ! nat \<lfloor>0.05 * real iterations\<rfloor>)"
proof -
  from runMonteCarloSimulation_tallies [OF assms, of K r \<sigma> steps ty pos]
  obtain sim pos' sts where t:
    "runMonteCarloSimulation_loop (Fin S0) (Fin K) (Fin T) (Fin r) (Fin \<sigma>) iterations steps ty
          random 0 \<lparr> allPaths = [], payoffs = [], sumPayoff = Fin 0, inTheMoneyCount = 0 \<rparr> pos
        = Some (sim, pos')"
    "length sts = iterations" "tallies ty K r T sim sts"
    "runMonteCarloSimulation (Fin S0) (Fin K) (Fin T) (Fin r) (Fin \<sigma>) iterations steps ty random pos
        = Some (\<lparr> optionPrice =
                    Fin (sum_list (map (discounted_payoff ty K r T) sts) / real iterations),
                  inTheMoneyProbability =
                    Fin (100 * real (length (filter (\<lambda>ST. 0 < payoff ty K ST) sts))
                           / real iterations),
                  valueAtRisk =
                    Fin (sum_list (map (discounted_payoff ty K r T) sts) / real iterations
                         - sort (map (discounted_payoff ty K r T) sts)
                             ! nat \<lfloor>0.05 * real iterations\<rfloor>),
                  visualPaths = visualPaths_loop (allPaths sim) iterations 0 [] \<rparr>, pos')"
    by blast
  define res where "res =
    \<lparr> optionPrice = Fin (sum_list (map (discounted_payoff ty K r T) sts) / real iterations),
      inTheMoneyProbability =
        Fin (100 * real (length (filter (\<lambda>ST. 0 < payoff ty K ST) sts)) / real iterations),
      valueAtRisk =
        Fin (sum_list (map (discounted_payoff ty K r T) sts) / real iterations
             - sort (map (discounted_payoff ty K r T) sts) ! nat \<lfloor>0.05 * real iterations\<rfloor>),
      visualPaths = visualPaths_loop (allPaths sim) iterations 0 [] \<rparr>"
  have run: "runMonteCarloSimulation (Fin S0) (Fin K) (Fin T) (Fin r) (Fin \<sigma>) iterations steps ty
      random pos = Some (res, pos')"
    unfolding t(4) res_def ..
  have pay: "payoffs sim = map (\<lambda>ST. Fin (discounted_payoff ty K r T ST)) sts"
    using t(3) by (simp add: tallies_def)
  have price: "optionPrice res
      = Fin (sum_list (map (discounted_payoff ty K r T) sts) / real iterations)"
    and var: "valueAtRisk res
      = Fin (sum_list (map (discounted_payoff ty K r T) sts) / real iterations
             - sort (map (discounted_payoff ty K r T) sts) ! nat \<lfloor>0.05 * real iterations\<rfloor>)"
    by (simp_all add: res_def)
  have idx: "nat \<lfloor>0.05 * real iterations\<rfloor> < length sts"
    using index5th_less [OF assms(4)] t(2) by simp
  show ?thesis
    apply (rule exI [of _ sim], rule exI [of _ pos'], rule exI [of _ sts], rule exI [of _ res])
    unfolding price var
    using t(1,2) run pay idx by simp
qed

theorem value_at_risk_definition_witness:
  "\<exists>sim pos' sts res.
      runMonteCarloSimulation_loop (Fin 100) (Fin 100) (Fin 1) (Fin 0.05) (Fin 0.2) 40 2 Put
          (constant_source (1 / 2)) 0
          \<lparr> allPaths = [], payoffs = [], sumPayoff = Fin 0, inTheMoneyCount = 0 \<rparr> 0
        = Some (sim, pos')
    \<and> runMonteCarloSimulation (Fin 100) (Fin 100) (Fin 1) (Fin 0.05) (Fin 0.2) 40 2 Put
          (constant_source (1 / 2)) 0
        = Some (res, pos')
    \<and> length sts = 40
    \<and> payoffs sim = map (\<lambda>ST. Fin (discounted_payoff Put 100 0.05 1 ST)) sts
    \<and> optionPrice res = Fin (sum_list (map (discounted_payoff Put 100 0.05 1) sts) / 40)
    \<and> 2 < length sts
    \<and> valueAtRisk res
        = optionPrice res - Fin (sort (map (discounted_payoff Put 100 0.05 1) sts) ! 2)"
proof -
  have u: "uniform_source (constant_source (1 / 2))"
    by (rule uniform_constant_source) simp_all
  have "nat \<lfloor>0.05 * real 40\<rfloor> = 2" by simp
  then show ?thesis
    using value_at_risk_definition [OF u, of 100 1 40 100 "0.05" "0.2" 2 Put 0] by simp
qed

subsection \<open>Arguments outside the preconditions\<close>

lemma runMonteCarloSimulation_no_paths:
  "runMonteCarloSimulation S0 K T r sigma 0 steps ty random pos
    = Some (\<lparr> optionPrice = NaN, inTheMoneyProbability = NaN, valueAtRisk = NaN,
              visualPaths = [] \<rparr>, pos)"
  unfolding runMonteCarloSimulation_def
  apply (subst runMonteCarloSimulation_loop.simps)
  apply (subst visualPaths_loop.simps)
  apply (simp add: sort_by_difference_def array_get_def minus_number_def)
  done

lemma simulateGBMPath_no_steps:
  "simulateGBMPath S0 r sigma T 0 random pos = Some ([Some S0], pos)"
  unfolding simulateGBMPath_def Let_def
  by (subst simulateGBMPath_loop.simps) (simp add: array_set_def new_Array_def)

lemma gamma_calculateBlackScholes:
  "gamma (calculateBlackScholes S K T r sigma) =
     normalPDF ((Math_log (S / K) + (r + Fin 0.5 * sigma * sigma) * T) / (sigma * Math_sqrt T))
       / (S * sigma * Math_sqrt T)"
  by (simp add: calculateBlackScholes_def Let_def)

lemma normalPDF_not_finite: "x \<in> {PInf, NInf, NaN} \<Longrightarrow> normalPDF x \<in> {Fin 0, NaN}"
  by (auto simp: normalPDF_def Math_PI_def signed_inf_def)

lemma divide_by_zero_not_finite: "Fin a / Fin 0 \<in> {PInf, NInf, NaN}"
  by (simp add: signed_inf_def)

lemma gamma_degenerate:
  assumes "0 < S" "0 < K" "T = 0 \<or> \<sigma> = 0"
  shows "gamma (calculateBlackScholes (Fin S) (Fin K) (Fin T) (Fin r) (Fin \<sigma>)) = NaN"
proof (cases "0 \<le> T")
  case True
  then have sq: "Math_sqrt (Fin T) = Fin (sqrt T)" by simp
  from assms(3) have z: "Fin \<sigma> * Fin (sqrt T) = Fin 0" "Fin S * Fin \<sigma> * Fin (sqrt T) = Fin 0"
    by auto
  have num: "Math_log (Fin S / Fin K) + (Fin r + Fin 0.5 * Fin \<sigma> * Fin \<sigma>) * Fin T
        = Fin (ln (S / K) + (r + 0.5 * \<sigma> * \<sigma>) * T)"
    using assms(1,2) by simp
  have "normalPDF (Fin (ln (S / K) + (r + 0.5 * \<sigma> * \<sigma>) * T) / Fin 0) \<in> {Fin 0, NaN}"
    by (rule normalPDF_not_finite [OF divide_by_zero_not_finite])
  then have "normalPDF (Fin (ln (S / K) + (r + 0.5 * \<sigma> * \<sigma>) * T) / Fin 0) / Fin 0 = NaN"
    by auto
  then show ?thesis
    unfolding gamma_calculateBlackScholes sq num z .
next
  case False
  then have "Math_sqrt (Fin T) = NaN" by simp
  then show ?thesis
    unfolding gamma_calculateBlackScholes
    by (cases "normalPDF ((Math_log (Fin S / Fin K) + (Fin r + Fin 0.5 * Fin \<sigma> * Fin \<sigma>) * Fin T)
                 / (Fin \<sigma> * NaN))") simp_all
qed

text \<open>
  C4, as amended. With no path at all the engine raises no error and returns NaN as price,
  as in-the-money probability and as value at risk; with no step the path simulator raises
  no error and returns the path that holds \<open>S0\<close> alone, without a draw; with \<open>T = 0\<close> or
  \<open>\<sigma> = 0\<close> (and \<open>S, K > 0\<close>) the pricer raises no error and returns a result whose gamma
  is NaN.
\<close>

theorem preconditions_unchecked:
  "runMonteCarloSimulation S0 K T r sigma 0 steps ty random pos
     = Some (\<lparr> optionPrice = NaN, inTheMoneyProbability = NaN, valueAtRisk = NaN,
               visualPaths = [] \<rparr>, pos)
   \<and> simulateGBMPath S0 r sigma T 0 random pos = Some ([Some S0], pos)
   \<and> (0 < spot \<and> 0 < strike \<and> (maturity = 0 \<or> vol = 0) \<longrightarrow>
        gamma (calculateBlackScholes (Fin spot) (Fin strike) (Fin maturity) (Fin rate) (Fin vol))
          = NaN)"
  using runMonteCarloSimulation_no_paths [of S0 K T r sigma steps ty random pos]
    simulateGBMPath_no_steps [of S0 r sigma T random pos]
    gamma_degenerate [of spot strike maturity vol rate]
  by simp

theorem preconditions_unchecked_witness:
  "gamma (calculateBlackScholes (Fin 100) (Fin 100) (Fin 0) (Fin 0.05) (Fin 0.2)) = NaN
   \<and> gamma (calculateBlackScholes (Fin 100) (Fin 100) (Fin 1) (Fin 0.05) (Fin 0)) = NaN"
  using preconditions_unchecked [where spot = 100 and strike = 100 and maturity = 0 and vol = "0.2"
      and rate = "0.05"]
    preconditions_unchecked [where spot = 100 and strike = 100 and maturity = 1 and vol = 0
      and rate = "0.05"]
  by simp

text \<open>
  The engine with \<open>iterations = 0\<close> and the pricer with \<open>T = 0\<close> return NaN and no error.
\<close>

theorem preconditions_unchecked_counterexample:
  "runMonteCarloSimulation (Fin 100) (Fin 100) (Fin 1) (Fin 0.05) (Fin 0.2) 0 50 Call
      (constant_source (1 / 2)) 0
     = Some (\<lparr> optionPrice = NaN, inTheMoneyProbability = NaN, valueAtRisk = NaN,
               visualPaths = [] \<rparr>, 0)
   \<and> gamma (calculateBlackScholes (Fin 100) (Fin 100) (Fin 0) (Fin 0.05) (Fin 0.2)) = NaN"
  using runMonteCarloSimulation_no_paths [of "Fin 100" "Fin 100" "Fin 1" "Fin 0.05" "Fin 0.2" 50 Call
      "constant_source (1 / 2)" 0]
    gamma_degenerate [of 100 100 0 "0.2" "0.05"]
  by simp

subsection \<open>Portfolio rebalancer\<close>

lemma or_zero_id: "x \<noteq> NaN \<Longrightarrow> or_zero x = x"
  by (auto simp: or_zero_def)

lemma foldl_plus_Fin:
  "(\<forall>a \<in> set xs. f a = Fin (g a)) \<Longrightarrow>
     foldl (\<lambda>sum a. sum + f a) (Fin s) xs = Fin (s + sum_list (map g xs))"
  by (induction xs arbitrary: s) (simp_all add: add.assoc)

lemma foldl_or_zero:
  "(\<forall>a \<in> set xs. f a \<noteq> NaN) \<Longrightarrow>
     foldl (\<lambda>sum a. sum + or_zero (f a)) s xs = foldl (\<lambda>sum a. sum + f a) s xs"
  by (induction xs arbitrary: s) (simp_all add: or_zero_id)

lemma finite_asset_values:
  "finite_asset a \<Longrightarrow> currentValue a = Fin (real_of (currentValue a))"
  "finite_asset a \<Longrightarrow> targetAllocation a = Fin (real_of (targetAllocation a))"
  by (auto simp: finite_asset_def)

lemma totalValue_Fin:
  assumes "\<forall>a \<in> set assets. finite_asset a"
  shows "totalValue (calculations assets) = Fin (sum_list (map (\<lambda>a. real_of (currentValue a)) assets))"
proof -
  have "\<forall>a \<in> set assets. or_zero (currentValue a) = Fin (real_of (currentValue a))"
    using assms by (auto simp: finite_asset_def or_zero_def)
  from foldl_plus_Fin [of assets "\<lambda>a. or_zero (currentValue a)", OF this, of 0]
  show ?thesis by (simp add: calculations_def Let_def)
qed

lemma totalAllocation_Fin:
  assumes "\<forall>a \<in> set assets. finite_asset a"
  shows "totalAllocation (calculations assets)
         = Fin (sum_list (map (\<lambda>a. real_of (targetAllocation a)) assets))"
proof -
  have "\<forall>a \<in> set assets. or_zero (targetAllocation a) = Fin (real_of (targetAllocation a))"
    using assms by (auto simp: finite_asset_def or_zero_def)
  from foldl_plus_Fin [of assets "\<lambda>a. or_zero (targetAllocation a)", OF this, of 0]
  show ?thesis by (simp add: calculations_def Let_def)
qed

lemma actions_eq:
  "actions (calculations assets) =
     map (\<lambda>asset. Asset.extend asset
        \<lparr> targetValue = (totalValue (calculations assets) * or_zero (targetAllocation asset)) / Fin 100,
          delta = (totalValue (calculations assets) * or_zero (targetAllocation asset)) / Fin 100
                    - or_zero (currentValue asset),
          action = (if Fin 0.01 < (totalValue (calculations assets) * or_zero (targetAllocation asset)) / Fin 100
                    - or_zero (currentValue asset) then BUY
                    else if (totalValue (calculations assets) * or_zero (targetAllocation asset)) / Fin 100
                    - or_zero (currentValue asset) < Fin (-0.01) then SELL else HOLD) \<rparr>) assets"
  by (simp add: calculations_def Let_def)

lemma delta_extend [simp]:
  "delta (Asset.extend a \<lparr> targetValue = tv, delta = d, action = act \<rparr>) = d"
  "targetValue (Asset.extend a \<lparr> targetValue = tv, delta = d, action = act \<rparr>) = tv"
  "action (Asset.extend a \<lparr> targetValue = tv, delta = d, action = act \<rparr>) = act"
  "Asset.truncate (Asset.extend a \<lparr> targetValue = tv, delta = d, action = act \<rparr>) = a"
  by (cases a; simp add: Asset.extend_def Asset.truncate_def)+

lemma sum_list_deltas:
  "sum_list (map (\<lambda>a. tv * g a / 100 - f a) xs)
   = tv * sum_list (map g xs) / 100 - sum_list (map f xs)" for tv :: real
  by (induction xs) (simp_all add: algebra_simps add_divide_distrib)

lemma sum_deltas_Fin:
  assumes "\<forall>a \<in> set assets. finite_asset a"
  shows "sum_deltas (actions (calculations assets))
    = Fin (sum_list (map (\<lambda>a. real_of (currentValue a)) assets)
           * (sum_list (map (\<lambda>a. real_of (targetAllocation a)) assets) - 100) / 100)"
proof -
  define tv where "tv = sum_list (map (\<lambda>a. real_of (currentValue a)) assets)"
  have d: "\<forall>a \<in> set assets.
      (Fin tv * or_zero (targetAllocation a)) / Fin 100 - or_zero (currentValue a)
      = Fin (tv * real_of (targetAllocation a) / 100 - real_of (currentValue a))"
    using assms by (auto simp: finite_asset_def or_zero_def)
  have "sum_deltas (actions (calculations assets))
      = foldl (\<lambda>sum a. sum + ((Fin tv * or_zero (targetAllocation a)) / Fin 100
                                - or_zero (currentValue a))) (Fin 0) assets"
    unfolding sum_deltas_def actions_eq totalValue_Fin [OF assms] tv_def [symmetric]
    by (simp add: foldl_map)
  also have "\<dots> = Fin (0 + sum_list (map (\<lambda>a. tv * real_of (targetAllocation a) / 100
                                            - real_of (currentValue a)) assets))"
    by (rule foldl_plus_Fin [OF d])
  also have "\<dots> = Fin (tv * (sum_list (map (\<lambda>a. real_of (targetAllocation a)) assets) - 100) / 100)"
    unfolding sum_list_deltas tv_def by (simp add: algebra_simps diff_divide_distrib)
  finally show ?thesis unfolding tv_def .
qed

text \<open>
  C8, as amended. For every collection of assets with finite values the deltas sum to
  \<open>totalValue * (totalAllocation - 100) / 100\<close>: at most \<open>\<bar>totalValue\<bar> / 10000\<close> in absolute
  value when \<open>isValid\<close> holds, and \<open>0\<close> when the allocations sum to \<open>100\<close> exactly.
\<close>

theorem rebalance_deltas_sum:
  assumes "\<forall>a \<in> set assets. finite_asset a"
  shows "totalValue (calculations assets) = Fin (sum_list (map (\<lambda>a. real_of (currentValue a)) assets))
    \<and> totalAllocation (calculations assets)
        = Fin (sum_list (map (\<lambda>a. real_of (targetAllocation a)) assets))
    \<and> sum_deltas (actions (calculations assets))
        = Fin (real_of (totalValue (calculations assets))
               * (real_of (totalAllocation (calculations assets)) - 100) / 100)
    \<and> (isValid (calculations assets) \<longrightarrow>
         \<bar>sum_deltas (actions (calculations assets))\<bar>
           \<le> Fin (\<bar>real_of (totalValue (calculations assets))\<bar> / 10000))
    \<and> (totalAllocation (calculations assets) = Fin 100 \<longrightarrow>
         sum_deltas (actions (calculations assets)) = Fin 0)"
proof -
  define tv where "tv = sum_list (map (\<lambda>a. real_of (currentValue a)) assets)"
  define ta where "ta = sum_list (map (\<lambda>a. real_of (targetAllocation a)) assets)"
  have tv: "totalValue (calculations assets) = Fin tv"
    unfolding tv_def by (rule totalValue_Fin [OF assms])
  have ta: "totalAllocation (calculations assets) = Fin ta"
    unfolding ta_def by (rule totalAllocation_Fin [OF assms])
  have sd: "sum_deltas (actions (calculations assets)) = Fin (tv * (ta - 100) / 100)"
    unfolding tv_def ta_def by (rule sum_deltas_Fin [OF assms])
  have valid: "isValid (calculations assets) = (\<bar>ta - 100\<bar> < 0.01)"
    using ta by (simp add: calculations_def Let_def)
  have bound: "\<bar>ta - 100\<bar> < 0.01 \<Longrightarrow> \<bar>tv * (ta - 100) / 100\<bar> \<le> \<bar>tv\<bar> / 10000"
  proof -
    assume "\<bar>ta - 100\<bar> < 0.01"
    then have "\<bar>tv\<bar> * \<bar>ta - 100\<bar> \<le> \<bar>tv\<bar> * 0.01"
      by (intro mult_left_mono) simp_all
    then show ?thesis by (simp add: abs_mult)
  qed
  show ?thesis
    unfolding sd tv ta valid using bound by (simp add: tv_def ta_def)
qed

theorem rebalance_deltas_sum_witness:
  "sum_deltas (actions (calculations
     [\<lparr> asset_id = ''1'', name = ''Global Equities'', currentValue = Fin 50000, targetAllocation = Fin 40 \<rparr>,
      \<lparr> asset_id = ''2'', name = ''Green Bonds'', currentValue = Fin 30000, targetAllocation = Fin 30 \<rparr>,
      \<lparr> asset_id = ''3'', name = ''Real Estate'', currentValue = Fin 20000, targetAllocation = Fin 30 \<rparr>]))
   = Fin 0"
  using rebalance_deltas_sum [of
     "[\<lparr> asset_id = ''1'', name = ''Global Equities'', currentValue = Fin 50000, targetAllocation = Fin 40 \<rparr>,
      \<lparr> asset_id = ''2'', name = ''Green Bonds'', currentValue = Fin 30000, targetAllocation = Fin 30 \<rparr>,
      \<lparr> asset_id = ''3'', name = ''Real Estate'', currentValue = Fin 20000, targetAllocation = Fin 30 \<rparr>]"]
  by (simp add: finite_asset_def)

text \<open>
  Allocations of \<open>40\<close>, \<open>30\<close> and \<open>30.005\<close> percent of a portfolio worth \<open>100000\<close> are
  valid, and the deltas sum to \<open>5\<close>.
\<close>

theorem rebalance_deltas_sum_counterexample:
  "isValid (calculations
     [\<lparr> asset_id = ''1'', name = ''Global Equities'', currentValue = Fin 50000, targetAllocation = Fin 40 \<rparr>,
      \<lparr> asset_id = ''2'', name = ''Green Bonds'', currentValue = Fin 30000, targetAllocation = Fin 30 \<rparr>,
      \<lparr> asset_id = ''3'', name = ''Real Estate'', currentValue = Fin 20000, targetAllocation = Fin 30.005 \<rparr>])
   \<and> Fin (1 / 10 ^ 6) < \<bar>sum_deltas (actions (calculations
     [\<lparr> asset_id = ''1'', name = ''Global Equities'', currentValue = Fin 50000, targetAllocation = Fin 40 \<rparr>,
      \<lparr> asset_id = ''2'', name = ''Green Bonds'', currentValue = Fin 30000, targetAllocation = Fin 30 \<rparr>,
      \<lparr> asset_id = ''3'', name = ''Real Estate'', currentValue = Fin 20000, targetAllocation = Fin 30.005 \<rparr>]))\<bar>
   \<and> sum_deltas (actions (calculations
     [\<lparr> asset_id = ''1'', name = ''Global Equities'', currentValue = Fin 50000, targetAllocation = Fin 40 \<rparr>,
      \<lparr> asset_id = ''2'', name = ''Green Bonds'', currentValue = Fin 30000, targetAllocation = Fin 30 \<rparr>,
      \<lparr> asset_id = ''3'', name = ''Real Estate'', currentValue = Fin 20000, targetAllocation = Fin 30.005 \<rparr>]))
     = Fin 5"
  by (simp add: calculations_def sum_deltas_def or_zero_def Let_def)

text \<open>
  C9. For every collection of assets (no field NaN), whatever the allocations sum to, the
  rebalancer returns one action per asset, in order, with
  \<open>targetValue = totalValue * targetAllocation / 100\<close>, \<open>delta = targetValue - currentValue\<close> and
  the action \<open>BUY\<close> if \<open>delta > 0.01\<close>, \<open>SELL\<close> if \<open>delta < -0.01\<close>, else \<open>HOLD\<close>; \<open>isValid\<close>
  only reports whether the allocations sum to \<open>100\<close> within \<open>0.01\<close>.
\<close>

theorem rebalancer_total:
  assumes "\<forall>a \<in> set assets. currentValue a \<noteq> NaN \<and> targetAllocation a \<noteq> NaN"
  shows "length (actions (calculations assets)) = length assets
    \<and> totalValue (calculations assets) = foldl (\<lambda>sum a. sum + currentValue a) (Fin 0) assets
    \<and> totalAllocation (calculations assets) = foldl (\<lambda>sum a. sum + targetAllocation a) (Fin 0) assets
    \<and> isValid (calculations assets) = (\<bar>totalAllocation (calculations assets) - Fin 100\<bar> < Fin 0.01)
    \<and> (\<forall>i < length assets.
          Asset.truncate (actions (calculations assets) ! i) = assets ! i
        \<and> targetValue (actions (calculations assets) ! i)
            = totalValue (calculations assets) * targetAllocation (assets ! i) / Fin 100
        \<and> delta (actions (calculations assets) ! i)
            = targetValue (actions (calculations assets) ! i) - currentValue (assets ! i)
        \<and> action (actions (calculations assets) ! i)
            = (if Fin 0.01 < delta (actions (calculations assets) ! i) then BUY
               else if delta (actions (calculations assets) ! i) < Fin (-0.01) then SELL
               else HOLD))"
proof -
  have a: "\<forall>a \<in> set assets. currentValue a \<noteq> NaN" and b: "\<forall>a \<in> set assets. targetAllocation a \<noteq> NaN"
    using assms by simp_all
  have tv: "totalValue (calculations assets) = foldl (\<lambda>sum a. sum + currentValue a) (Fin 0) assets"
    using foldl_or_zero [OF a] by (simp add: calculations_def Let_def)
  have ta: "totalAllocation (calculations assets) = foldl (\<lambda>sum a. sum + targetAllocation a) (Fin 0) assets"
    using foldl_or_zero [OF b] by (simp add: calculations_def Let_def)
  have valid: "isValid (calculations assets) = (\<bar>totalAllocation (calculations assets) - Fin 100\<bar> < Fin 0.01)"
    by (simp add: calculations_def Let_def)
  have len: "length (actions (calculations assets)) = length assets"
    by (simp add: actions_eq)
  have each: "\<forall>i < length assets.
          Asset.truncate (actions (calculations assets) ! i) = assets ! i
        \<and> targetValue (actions (calculations assets) ! i)
            = totalValue (calculations assets) * targetAllocation (assets ! i) / Fin 100
        \<and> delta (actions (calculations assets) ! i)
            = targetValue (actions (calculations assets) ! i) - currentValue (assets ! i)
        \<and> action (actions (calculations assets) ! i)
            = (if Fin 0.01 < delta (actions (calculations assets) ! i) then BUY
               else if delta (actions (calculations assets) ! i) < Fin (-0.01) then SELL
               else HOLD)"
  proof (intro allI impI)
    fix i assume i: "i < length assets"
    then have "assets ! i \<in> set assets" by simp
    with assms have "or_zero (currentValue (assets ! i)) = currentValue (assets ! i)"
      "or_zero (targetAllocation (assets ! i)) = targetAllocation (assets ! i)"
      by (simp_all add: or_zero_id)
    with i show "Asset.truncate (actions (calculations assets) ! i) = assets ! i
        \<and> targetValue (actions (calculations assets) ! i)
            = totalValue (calculations assets) * targetAllocation (assets ! i) / Fin 100
        \<and> delta (actions (calculations assets) ! i)
            = targetValue (actions (calculations assets) ! i) - currentValue (assets ! i)
        \<and> action (actions (calculations assets) ! i)
            = (if Fin 0.01 < delta (actions (calculations assets) ! i) then BUY
               else if delta (actions (calculations assets) ! i) < Fin (-0.01) then SELL
               else HOLD)"
      by (simp add: actions_eq)
  qed
  from len tv ta valid each show ?thesis by blast
qed

theorem rebalancer_total_witness:
  "\<not> isValid (calculations
     [\<lparr> asset_id = ''1'', name = ''Global Equities'', currentValue = Fin 50000, targetAllocation = Fin 40 \<rparr>,
      \<lparr> asset_id = ''2'', name = ''Green Bonds'', currentValue = Fin 30000, targetAllocation = Fin 30 \<rparr>,
      \<lparr> asset_id = ''3'', name = ''Real Estate'', currentValue = Fin 20000, targetAllocation = Fin 20 \<rparr>])
   \<and> map (\<lambda>a. (targetValue a, delta a, action a)) (actions (calculations
     [\<lparr> asset_id = ''1'', name = ''Global Equities'', currentValue = Fin 50000, targetAllocation = Fin 40 \<rparr>,
      \<lparr> asset_id = ''2'', name = ''Green Bonds'', currentValue = Fin 30000, targetAllocation = Fin 30 \<rparr>,
      \<lparr> asset_id = ''3'', name = ''Real Estate'', currentValue = Fin 20000, targetAllocation = Fin 20 \<rparr>]))
     = [(Fin 40000, Fin (- 10000), SELL), (Fin 30000, Fin 0, HOLD), (Fin 20000, Fin 0, HOLD)]"
  using rebalancer_total [of
     "[\<lparr> asset_id = ''1'', name = ''Global Equities'', currentValue = Fin 50000, targetAllocation = Fin 40 \<rparr>,
      \<lparr> asset_id = ''2'', name = ''Green Bonds'', currentValue = Fin 30000, targetAllocation = Fin 30 \<rparr>,
      \<lparr> asset_id = ''3'', name = ''Real Estate'', currentValue = Fin 20000, targetAllocation = Fin 20 \<rparr>]"]
  by (simp add: actions_eq calculations_def or_zero_def Let_def)

end
